theory Spec2Isabelle
  imports Complex_Main "HOL-Library.Word"
begin

section \<open>Data model of the expression controller (firmware/express/express.ino)\<close>

text \<open>
  The firmware samples 16 analog ports, maps every port to a MIDI Control Change and
  routes MIDI packets between the USB host and the two serial links (Plug, Socket).

  Integer fields are machine words of the width the source declares. The bounds of a
  range are \<^verbatim>\<open>float\<close> values that the import only stores and compares (with 0, with 1
  and with each other); they are read as real numbers, on which these comparisons agree
  with the ones of the source. The rounding arithmetic of \<^verbatim>\<open>measurePort\<close> is not modelled.
\<close>

type_synonym uint8_t = "8 word"
type_synonym uint32_t = "32 word"
type_synonym float = real

text \<open>\<^verbatim>\<open>constexpr struct { uint8_t count{16}; } Ports;\<close>\<close>

definition Ports_count :: nat where
  "Ports_count = 16"

text \<open>
  Controller numbers of the V2MIDI library (\<^verbatim>\<open>V2MIDI::CC\<close>), which is not part of the
  repository; they are the numbers of the MIDI standard.
\<close>

definition GeneralPurpose1 :: uint8_t where
  "GeneralPurpose1 = 16"

definition Controller90 :: uint8_t where
  "Controller90 = 90"

definition AllSoundOff :: uint8_t where
  "AllSoundOff = 120"

definition AllNotesOff :: uint8_t where
  "AllNotesOff = 123"

text \<open>\<^verbatim>\<open>enum class CC { Rainbow = V2MIDI::CC::Controller90 };\<close>\<close>

definition Rainbow :: uint8_t where
  "Rainbow = Controller90"

subsection \<open>The configuration block\<close>

text \<open>
  \<^verbatim>\<open>struct { bool invert{}; float min{}; float max{1}; } range;\<close>
  (the fields carry the prefix \<open>range_\<close>, as \<open>min\<close> and \<open>max\<close> are constants of HOL).
\<close>

record range_config =
  range_invert :: bool
  range_min :: float
  range_max :: float

text \<open>\<^verbatim>\<open>struct { uint8_t channel{}; uint8_t controller; struct {...} range; } ports[Ports.count];\<close>\<close>

record port_config =
  channel :: uint8_t
  controller :: uint8_t
  port_range :: range_config

definition range_default :: range_config where
  "range_default = \<lparr>range_invert = False, range_min = 0, range_max = 1\<rparr>"

text \<open>The initialiser of \<^verbatim>\<open>config\<close>: port \<open>i\<close> sends controller \<open>GeneralPurpose1 + i\<close>.\<close>

definition config_default :: "port_config list" where
  "config_default =
     map (\<lambda>i. \<lparr>channel = 0, controller = GeneralPurpose1 + of_nat i, port_range = range_default\<rparr>)
       [0..<Ports_count]"

subsection \<open>Packets and the runtime state\<close>

text \<open>
  A \<^verbatim>\<open>V2MIDI::Packet\<close> carries a port field (\<^verbatim>\<open>getPort\<close>, \<^verbatim>\<open>setPort\<close>) and a MIDI message;
  the only message this firmware builds itself is the Control Change
  (\<^verbatim>\<open>setControlChange(channel, controller, value)\<close>).
\<close>

datatype message =
    NoMessage
  | ControlChange uint8_t uint8_t uint8_t
  | OtherMessage "uint8_t list"

record packet =
  port :: uint8_t
  message :: message

definition packet_empty :: packet where
  "packet_empty = \<lparr>port = 0, message = NoMessage\<rparr>"

definition setControlChange :: "uint8_t \<Rightarrow> uint8_t \<Rightarrow> uint8_t \<Rightarrow> packet \<Rightarrow> packet" where
  "setControlChange ch ctl v p = p\<lparr>message := ControlChange ch ctl v\<rparr>"

text \<open>
  What the firmware reads from a \<^verbatim>\<open>V2Potentiometer\<close> smoothing filter: \<^verbatim>\<open>getStep()\<close>, which it
  stores in the \<^verbatim>\<open>uint8_t\<close> cache and sends as the controller value, and \<^verbatim>\<open>getFraction()\<close>.
  The filter itself is an external library; its \<^verbatim>\<open>reset\<close> is a parameter below.
\<close>

record poti =
  step :: uint8_t
  fraction :: float

record device =
  config :: "port_config list"
  potis :: "poti list"
  steps :: "uint8_t list"
  measureUsec :: uint32_t
  eventsUsec :: uint32_t
  rainbow :: float
  midi :: packet

text \<open>The three arrays of the device have \<^verbatim>\<open>Ports.count\<close> elements.\<close>

definition wf_device :: "device \<Rightarrow> bool" where
  "wf_device s \<longleftrightarrow>
     length (config s) = Ports_count \<and> length (potis s) = Ports_count \<and>
     length (steps s) = Ports_count"

text \<open>What a handler does to the LED strip and to the transports, in the order of the calls.\<close>

datatype transport = USB | Plug | Socket

datatype effect =
    LED_reset
  | LED_setBrightness nat float
  | LED_rainbow nat float
  | usb_midi_send packet
  | Plug_send packet
  | Socket_send packet
  | Device_dispatch transport packet

section \<open>The device\<close>

subsection \<open>Reset\<close>

text \<open>
  \<^verbatim>\<open>handleReset\<close>: \<open>potiReset\<close> is \<^verbatim>\<open>V2Potentiometer::reset\<close>, \<open>now\<close> is \<^verbatim>\<open>V2Base::getUsec()\<close>;
  \<^verbatim>\<open>memset(_steps, 0, sizeof(_steps))\<close> zeroes the cache.
\<close>

definition handleReset :: "(poti \<Rightarrow> poti) \<Rightarrow> uint32_t \<Rightarrow> device \<Rightarrow> effect list \<times> device" where
  "handleReset potiReset now s =
     ([LED_reset],
      s\<lparr>potis := map potiReset (potis s),
        steps := replicate Ports_count 0,
        measureUsec := 0,
        eventsUsec := now,
        rainbow := 0,
        midi := packet_empty\<rparr>)"

subsection \<open>Sending\<close>

text \<open>\<^verbatim>\<open>handleSend\<close>: the packet goes to USB, then to the Plug link; the result is \<^verbatim>\<open>true\<close>.\<close>

definition handleSend :: "packet \<Rightarrow> effect list \<times> bool" where
  "handleSend m = ([usb_midi_send m, Plug_send m], True)"

text \<open>\<^verbatim>\<open>send\<close> of the base class hands the packet to the \<^verbatim>\<open>handleSend\<close> override.\<close>

definition send :: "packet \<Rightarrow> effect list" where
  "send m = fst (handleSend m)"

text \<open>One iteration of the loop of \<^verbatim>\<open>sendEvents\<close>, for port \<open>i\<close>.\<close>

definition sendEvents_port :: "bool \<Rightarrow> nat \<Rightarrow> device \<Rightarrow> effect list \<times> device" where
  "sendEvents_port force i s =
     (if \<not> force \<and> steps s ! i = step (potis s ! i) then ([], s)
      else
        let led = [LED_setBrightness i (fraction (potis s ! i))];
            m = setControlChange (channel (config s ! i)) (controller (config s ! i))
                  (step (potis s ! i)) (midi s);
            tx = send m
        in (led @ tx, s\<lparr>steps := (steps s)[i := step (potis s ! i)], midi := m\<rparr>))"

fun sendEvents_loop :: "bool \<Rightarrow> nat list \<Rightarrow> device \<Rightarrow> effect list \<times> device" where
  "sendEvents_loop force [] s = ([], s)"
| "sendEvents_loop force (i # js) s =
     (case sendEvents_port force i s of
        (es, s') \<Rightarrow> (case sendEvents_loop force js s' of (es', s'') \<Rightarrow> (es @ es', s'')))"

definition sendEvents :: "bool \<Rightarrow> device \<Rightarrow> effect list \<times> device" where
  "sendEvents force s = sendEvents_loop force [0..<Ports_count] s"

definition allNotesOff :: "device \<Rightarrow> effect list \<times> device" where
  "allNotesOff s = sendEvents True s"

text \<open>\<^verbatim>\<open>handleControlChange(channel, controller, value)\<close>.\<close>

definition handleControlChange ::
  "uint8_t \<Rightarrow> uint8_t \<Rightarrow> uint8_t \<Rightarrow> device \<Rightarrow> effect list \<times> device" where
  "handleControlChange ch ctl v s =
     (if ctl = Rainbow then
        (let r = real (unat v) / 127
         in (if r \<le> 0 then [LED_reset] else [LED_rainbow 1 (4.5 - r * 4)], s\<lparr>rainbow := r\<rparr>))
      else if ctl = AllNotesOff \<or> ctl = AllSoundOff then allNotesOff s
      else ([], s))"

subsection \<open>Importing the configuration\<close>

text \<open>
  The settings document, after the JSON library has converted every present field to the
  type of the variable the source assigns it to; \<open>None\<close> is a field that \<^verbatim>\<open>isNull()\<close>.
\<close>

record json_range =
  json_invert :: "bool option"
  json_min :: "float option"
  json_max :: "float option"

record json_port =
  json_channel :: "uint8_t option"
  json_controller :: "uint8_t option"
  json_range :: "json_range option"

definition json_port_null :: json_port where
  "json_port_null = \<lparr>json_channel = None, json_controller = None, json_range = None\<rparr>"

text \<open>\<^verbatim>\<open>jsonPorts[i]\<close>: an index past the end of the array gives a null object.\<close>

definition jsonPorts_at :: "json_port list \<Rightarrow> nat \<Rightarrow> json_port" where
  "jsonPorts_at jsonPorts i = (if i < length jsonPorts then jsonPorts ! i else json_port_null)"

text \<open>Lines 283-292: the channel.\<close>

definition importChannel :: "uint8_t \<Rightarrow> port_config \<Rightarrow> port_config" where
  "importChannel ch p =
     (if ch < 1 then p\<lparr>channel := 0\<rparr>
      else if ch > 16 then p\<lparr>channel := 95\<rparr>
      else p\<lparr>channel := ch - 1\<rparr>)"

text \<open>Lines 294-298: the controller.\<close>

definition importController :: "uint8_t \<Rightarrow> port_config \<Rightarrow> port_config" where
  "importController v p =
     (let p' = p\<lparr>controller := v\<rparr>
      in if controller p' > 127 then p'\<lparr>controller := 127\<rparr> else p')"

text \<open>Lines 306-314: the lower bound of the range.\<close>

definition importRangeMin :: "float \<Rightarrow> range_config \<Rightarrow> range_config" where
  "importRangeMin v0 r =
     (let v = (if v0 < 0 \<or> v0 > 1 then 0 else v0);
          r' = r\<lparr>range_min := v\<rparr>
      in if range_min r' \<ge> range_max r' then r'\<lparr>range_max := 1\<rparr> else r')"

text \<open>Lines 316-324: the upper bound of the range.\<close>

definition importRangeMax :: "float \<Rightarrow> range_config \<Rightarrow> range_config" where
  "importRangeMax v0 r =
     (let v = (if v0 < 0 \<or> v0 > 1 then 1 else v0);
          r' = r\<lparr>range_max := v\<rparr>
      in if range_min r' \<ge> range_max r' then r'\<lparr>range_min := 0\<rparr> else r')"

definition importRange :: "json_range \<Rightarrow> range_config \<Rightarrow> range_config" where
  "importRange jsonRange r =
     (let r1 = (case json_invert jsonRange of None \<Rightarrow> r | Some b \<Rightarrow> r\<lparr>range_invert := b\<rparr>);
          r2 = (case json_min jsonRange of None \<Rightarrow> r1 | Some v \<Rightarrow> importRangeMin v r1)
      in (case json_max jsonRange of None \<Rightarrow> r2 | Some v \<Rightarrow> importRangeMax v r2))"

text \<open>The body of the loop over the ports.\<close>

definition importPort :: "json_port \<Rightarrow> port_config \<Rightarrow> port_config" where
  "importPort jsonPort p =
     (let p1 = (case json_channel jsonPort of None \<Rightarrow> p | Some ch \<Rightarrow> importChannel ch p);
          p2 = (case json_controller jsonPort of None \<Rightarrow> p1 | Some v \<Rightarrow> importController v p1)
      in (case json_range jsonPort of
            None \<Rightarrow> p2
          | Some jsonRange \<Rightarrow> p2\<lparr>port_range := importRange jsonRange (port_range p2)\<rparr>))"

fun importPorts :: "json_port list \<Rightarrow> nat list \<Rightarrow> port_config list \<Rightarrow> port_config list" where
  "importPorts jsonPorts [] cfg = cfg"
| "importPorts jsonPorts (i # js) cfg =
     importPorts jsonPorts js (cfg[i := importPort (jsonPorts_at jsonPorts i) (cfg ! i)])"

text \<open>\<^verbatim>\<open>importConfiguration\<close>: \<open>None\<close> is a document without the array \<^verbatim>\<open>"ports"\<close>.\<close>

definition importConfiguration :: "json_port list option \<Rightarrow> device \<Rightarrow> device" where
  "importConfiguration json s =
     (case json of
        None \<Rightarrow> s
      | Some jsonPorts \<Rightarrow> s\<lparr>config := importPorts jsonPorts [0..<Ports_count] (config s)\<rparr>)"

text \<open>
  The older revision (express.ino, version 22) has one channel for the whole device, under
  \<^verbatim>\<open>"midi"\<close>; its configuration is that channel alone.
\<close>

definition importConfiguration_v22 :: "uint8_t option option \<Rightarrow> uint8_t \<Rightarrow> uint8_t" where
  "importConfiguration_v22 json_midi cfg =
     (case json_midi of
        None \<Rightarrow> cfg
      | Some None \<Rightarrow> cfg
      | Some (Some ch) \<Rightarrow> (if ch < 1 then 0 else if ch > 16 then 15 else ch - 1))"

section \<open>Routing\<close>

text \<open>
  \<^verbatim>\<open>MIDI::loop\<close>: \<open>rx\<close> is the packet \<^verbatim>\<open>usb.midi.receive\<close> delivers, if any; the state is
  the member \<^verbatim>\<open>_midi\<close>.
\<close>

definition MIDI_loop :: "packet option \<Rightarrow> packet \<Rightarrow> effect list \<times> packet" where
  "MIDI_loop rx m0 =
     (case rx of
        None \<Rightarrow> ([], m0)
      | Some m \<Rightarrow>
          if port m = 0 then ([Device_dispatch USB m], m)
          else (let m' = m\<lparr>port := port m - 1\<rparr> in ([Socket_send m'], m')))"

text \<open>A \<^verbatim>\<open>V2Link::Packet\<close>: its type, its address and the MIDI message it carries.\<close>

datatype link_type = MIDI | NotMIDI

record link_packet =
  link_type :: link_type
  address :: uint8_t
  payload :: message

text \<open>\<^verbatim>\<open>packet->receive(&_midi)\<close> copies the message of the link packet.\<close>

definition receive :: "link_packet \<Rightarrow> packet \<Rightarrow> packet" where
  "receive lp m = m\<lparr>message := payload lp\<rparr>"

definition receivePlug :: "link_packet \<Rightarrow> packet \<Rightarrow> effect list \<times> packet" where
  "receivePlug lp m0 =
     (if link_type lp = MIDI then (let m = receive lp m0 in ([Device_dispatch Plug m], m))
      else ([], m0))"

text \<open>\<^verbatim>\<open>receiveSocket\<close>: \<open>usb_connected\<close> is \<^verbatim>\<open>Device.usb.midi.connected()\<close>.\<close>

definition receiveSocket :: "bool \<Rightarrow> link_packet \<Rightarrow> packet \<Rightarrow> effect list \<times> packet" where
  "receiveSocket usb_connected lp m0 =
     (if link_type lp = MIDI then
        (if address lp = 0x0f then ([], m0)
         else if usb_connected then
           (let m = (receive lp m0)\<lparr>port := address lp + 1\<rparr> in ([usb_midi_send m], m))
         else ([], m0))
      else ([], m0))"

section \<open>Vocabulary of the statements\<close>

text \<open>
  The packet \<^verbatim>\<open>sendEvents\<close> builds for port \<open>i\<close> in the member \<^verbatim>\<open>_midi\<close>, and what one
  iteration of its loop does when it does not skip the port.
\<close>

abbreviation port_message :: "device \<Rightarrow> nat \<Rightarrow> packet" where
  "port_message s i \<equiv>
     (midi s)\<lparr>message := ControlChange (channel (config s ! i)) (controller (config s ! i))
        (step (potis s ! i))\<rparr>"

abbreviation port_events :: "device \<Rightarrow> nat \<Rightarrow> effect list" where
  "port_events s i \<equiv>
     [LED_setBrightness i (fraction (potis s ! i)), usb_midi_send (port_message s i),
      Plug_send (port_message s i)]"

text \<open>The packets handed to \<^verbatim>\<open>usb.midi.send\<close> and to \<^verbatim>\<open>Plug.send\<close>, in order.\<close>

fun usb_sent :: "effect list \<Rightarrow> packet list" where
  "usb_sent [] = []"
| "usb_sent (usb_midi_send m # es) = m # usb_sent es"
| "usb_sent (e # es) = usb_sent es"

fun Plug_sent :: "effect list \<Rightarrow> packet list" where
  "Plug_sent [] = []"
| "Plug_sent (Plug_send m # es) = m # Plug_sent es"
| "Plug_sent (e # es) = Plug_sent es"

text \<open>The calls of a transport's \<^verbatim>\<open>send\<close> among the effects.\<close>

fun is_transmission :: "effect \<Rightarrow> bool" where
  "is_transmission (usb_midi_send m) = True"
| "is_transmission (Plug_send m) = True"
| "is_transmission (Socket_send m) = True"
| "is_transmission e = False"

definition transmissions :: "effect list \<Rightarrow> effect list" where
  "transmissions es = filter is_transmission es"

subsection \<open>States and documents of the examples\<close>

text \<open>The device after power-on: the default configuration, every filter at step 0.\<close>

definition device_default :: device where
  "device_default =
     \<lparr>config = config_default,
      potis = replicate Ports_count \<lparr>step = 0, fraction = 0\<rparr>,
      steps = replicate Ports_count 0,
      measureUsec = 0, eventsUsec = 0, rainbow = 0, midi = packet_empty\<rparr>"

text \<open>A device whose pedals are pressed: port \<open>i\<close> is at step \<open>8 * i\<close>, nothing emitted yet.\<close>

definition device_pressed :: device where
  "device_pressed =
     device_default\<lparr>potis := map (\<lambda>i. \<lparr>step = of_nat (8 * i), fraction = real i / 16\<rparr>) [0..<Ports_count]\<rparr>"

text \<open>A device whose port 0 has the range \<open>[1/4, 3/4]\<close>.\<close>

definition device_ranged :: device where
  "device_ranged =
     device_default\<lparr>config := (config device_default)
       [0 := \<lparr>channel = 0, controller = GeneralPurpose1,
              port_range = \<lparr>range_invert = False, range_min = 1/4, range_max = 3/4\<rparr>\<rparr>]\<rparr>"

text \<open>A filter reset that returns the filter to step 0.\<close>

definition potiReset_zero :: "poti \<Rightarrow> poti" where
  "potiReset_zero p = \<lparr>step = 0, fraction = 0\<rparr>"

text \<open>A document that sets one field of port 0.\<close>

definition json_range_null :: json_range where
  "json_range_null = \<lparr>json_invert = None, json_min = None, json_max = None\<rparr>"

definition json_set_channel :: "uint8_t \<Rightarrow> json_port list option" where
  "json_set_channel ch = Some [json_port_null\<lparr>json_channel := Some ch\<rparr>]"

definition json_set_min :: "float \<Rightarrow> json_port list option" where
  "json_set_min v = Some [json_port_null\<lparr>json_range := Some (json_range_null\<lparr>json_min := Some v\<rparr>)\<rparr>]"

definition json_set_max :: "float \<Rightarrow> json_port list option" where
  "json_set_max v = Some [json_port_null\<lparr>json_range := Some (json_range_null\<lparr>json_max := Some v\<rparr>)\<rparr>]"

text \<open>A document that sets both bounds of the range of port 0.\<close>

definition json_set_min_max :: "float \<Rightarrow> float \<Rightarrow> json_port list option" where
  "json_set_min_max a b =
     Some [json_port_null\<lparr>json_range :=
       Some (json_range_null\<lparr>json_min := Some a, json_max := Some b\<rparr>)\<rparr>]"

section \<open>The loops\<close>

subsection \<open>The import loop writes every port once\<close>

lemma importPorts_nth:
  "distinct js \<Longrightarrow> \<forall>j\<in>set js. j < length cfg \<Longrightarrow>
   length (importPorts jp js cfg) = length cfg \<and>
   (\<forall>i < length cfg. importPorts jp js cfg ! i =
      (if i \<in> set js then importPort (jsonPorts_at jp i) (cfg ! i) else cfg ! i))"
proof (induction js arbitrary: cfg)
  case Nil
  then show ?case by simp
next
  case (Cons j js)
  let ?cfg' = "cfg[j := importPort (jsonPorts_at jp j) (cfg ! j)]"
  have len: "length ?cfg' = length cfg" by simp
  have d: "distinct js" and nj: "j \<notin> set js" using Cons.prems(1) by auto
  have b: "\<forall>k\<in>set js. k < length ?cfg'" using Cons.prems(2) by simp
  from Cons.IH[OF d b] have IH1: "length (importPorts jp js ?cfg') = length cfg"
    and IH2: "\<And>i. i < length cfg \<Longrightarrow> importPorts jp js ?cfg' ! i =
      (if i \<in> set js then importPort (jsonPorts_at jp i) (?cfg' ! i) else ?cfg' ! i)"
    by auto
  show ?case
  proof (intro conjI allI impI)
    show "length (importPorts jp (j # js) cfg) = length cfg" using IH1 by simp
  next
    fix i assume i: "i < length cfg"
    show "importPorts jp (j # js) cfg ! i =
      (if i \<in> set (j # js) then importPort (jsonPorts_at jp i) (cfg ! i) else cfg ! i)"
      using IH2[OF i] nj i by (cases "i = j") auto
  qed
qed

lemma importConfiguration_port:
  assumes "length (config s) = Ports_count" "i < Ports_count"
  shows "config (importConfiguration (Some jp) s) ! i = importPort (jsonPorts_at jp i) (config s ! i)"
  using importPorts_nth[of "[0..<Ports_count]" "config s" jp] assms
  by (simp add: importConfiguration_def)

subsection \<open>The emission loop\<close>

lemma packet_message_update_eq:
  "port p = port q \<Longrightarrow> p\<lparr>message := x\<rparr> = (q\<lparr>message := x\<rparr> :: packet)"
  by (cases p, cases q) simp

lemma sendEvents_port_fst:
  "fst (sendEvents_port force i s) =
     (if \<not> force \<and> steps s ! i = step (potis s ! i) then [] else port_events s i)"
  by (simp add: sendEvents_port_def setControlChange_def send_def handleSend_def Let_def)

lemma sendEvents_port_snd:
  "snd (sendEvents_port force i s) =
     s\<lparr>steps := (steps s)[i := step (potis s ! i)],
       midi := (if \<not> force \<and> steps s ! i = step (potis s ! i) then midi s else port_message s i)\<rparr>"
proof (cases "\<not> force \<and> steps s ! i = step (potis s ! i)")
  case True
  then have "(steps s)[i := step (potis s ! i)] = steps s"
    by (metis list_update_id)
  with True show ?thesis by (simp add: sendEvents_port_def)
next
  case False
  then show ?thesis by (auto simp add: sendEvents_port_def setControlChange_def Let_def)
qed

lemma sendEvents_port_frame:
  "config (snd (sendEvents_port force i s)) = config s"
  "potis (snd (sendEvents_port force i s)) = potis s"
  "port (midi (snd (sendEvents_port force i s))) = port (midi s)"
  "steps (snd (sendEvents_port force i s)) = (steps s)[i := step (potis s ! i)]"
  "measureUsec (snd (sendEvents_port force i s)) = measureUsec s"
  "eventsUsec (snd (sendEvents_port force i s)) = eventsUsec s"
  "rainbow (snd (sendEvents_port force i s)) = rainbow s"
  by (simp_all add: sendEvents_port_snd)

lemma sendEvents_loop_Cons:
  "sendEvents_loop force (i # js) s =
     (fst (sendEvents_port force i s) @ fst (sendEvents_loop force js (snd (sendEvents_port force i s))),
      snd (sendEvents_loop force js (snd (sendEvents_port force i s))))"
  by (simp add: split_beta)

lemma sendEvents_loop_frame:
  "config (snd (sendEvents_loop force js s)) = config s \<and>
   potis (snd (sendEvents_loop force js s)) = potis s \<and>
   port (midi (snd (sendEvents_loop force js s))) = port (midi s) \<and>
   measureUsec (snd (sendEvents_loop force js s)) = measureUsec s \<and>
   eventsUsec (snd (sendEvents_loop force js s)) = eventsUsec s \<and>
   rainbow (snd (sendEvents_loop force js s)) = rainbow s"
proof (induction js arbitrary: s)
  case Nil
  show ?case by simp
next
  case (Cons i js)
  show ?case
    unfolding sendEvents_loop_Cons snd_conv
    using Cons.IH[of "snd (sendEvents_port force i s)"]
    by (simp add: sendEvents_port_frame)
qed

lemma sendEvents_loop_steps:
  "steps (snd (sendEvents_loop force js s)) =
     fold (\<lambda>i xs. xs[i := step (potis s ! i)]) js (steps s)"
proof (induction js arbitrary: s)
  case Nil
  show ?case by simp
next
  case (Cons i js)
  show ?case
    unfolding sendEvents_loop_Cons snd_conv
    using Cons.IH[of "snd (sendEvents_port force i s)"]
    by (simp add: sendEvents_port_frame)
qed

lemma fold_update_length:
  "length (fold (\<lambda>i xs. xs[i := g i]) js xs) = length xs"
  by (induction js arbitrary: xs) simp_all

lemma fold_update_other:
  "i \<notin> set js \<Longrightarrow> fold (\<lambda>i xs. xs[i := g i]) js xs ! i = xs ! i"
  by (induction js arbitrary: xs) auto

lemma fold_update_nth:
  "i \<in> set js \<Longrightarrow> i < length xs \<Longrightarrow> fold (\<lambda>i xs. xs[i := g i]) js xs ! i = g i"
proof (induction js arbitrary: xs)
  case Nil
  then show ?case by simp
next
  case (Cons j js)
  show ?case
  proof (cases "i \<in> set js")
    case True
    with Cons show ?thesis by simp
  next
    case False
    with Cons.prems have "i = j" by simp
    with False Cons.prems show ?thesis by (simp add: fold_update_other)
  qed
qed

lemma sendEvents_loop_effects:
  "distinct js \<Longrightarrow>
   fst (sendEvents_loop force js s) =
     concat (map (\<lambda>i. if \<not> force \<and> steps s ! i = step (potis s ! i) then [] else port_events s i) js)"
proof (induction js arbitrary: s)
  case Nil
  show ?case by simp
next
  case (Cons i js)
  let ?s' = "snd (sendEvents_port force i s)"
  have d: "distinct js" and ni: "i \<notin> set js" using Cons.prems by auto
  have m: "(midi (snd (sendEvents_port f i s)))\<lparr>message := x\<rparr> = (midi s)\<lparr>message := x\<rparr>" for f x
    by (rule packet_message_update_eq) (rule sendEvents_port_frame(3))
  have st: "steps (snd (sendEvents_port f i s)) ! j = steps s ! j" if "j \<in> set js" for j f
  proof -
    from that ni have "i \<noteq> j" by auto
    then show ?thesis by (simp add: sendEvents_port_frame(4))
  qed
  have "fst (sendEvents_loop force js ?s') =
     concat (map (\<lambda>j. if \<not> force \<and> steps ?s' ! j = step (potis ?s' ! j) then [] else port_events ?s' j) js)"
    by (rule Cons.IH[OF d])
  also have "\<dots> = concat (map (\<lambda>j. if \<not> force \<and> steps s ! j = step (potis s ! j) then [] else port_events s j) js)"
    by (rule arg_cong[where f = concat], rule map_cong[OF refl])
       (simp add: st m sendEvents_port_frame(1,2))
  finally show ?case
    unfolding sendEvents_loop_Cons fst_conv
    by (simp add: sendEvents_port_fst)
qed

lemma sendEvents_effects:
  "fst (sendEvents force s) =
     concat (map (\<lambda>i. if \<not> force \<and> steps s ! i = step (potis s ! i) then [] else port_events s i)
       [0..<Ports_count])"
  by (simp add: sendEvents_def sendEvents_loop_effects)

lemma sendEvents_steps:
  assumes "wf_device s"
  shows "steps (snd (sendEvents force s)) = map step (potis s)"
proof (rule nth_equalityI)
  show "length (steps (snd (sendEvents force s))) = length (map step (potis s))"
    using assms by (simp add: sendEvents_def sendEvents_loop_steps fold_update_length wf_device_def)
next
  fix i assume "i < length (steps (snd (sendEvents force s)))"
  then have i: "i < Ports_count"
    using assms by (simp add: sendEvents_def sendEvents_loop_steps fold_update_length wf_device_def)
  then show "steps (snd (sendEvents force s)) ! i = map step (potis s) ! i"
    using assms
    by (simp add: sendEvents_def sendEvents_loop_steps fold_update_nth wf_device_def)
qed

lemma sendEvents_frame:
  "config (snd (sendEvents force s)) = config s \<and>
   potis (snd (sendEvents force s)) = potis s \<and>
   port (midi (snd (sendEvents force s))) = port (midi s) \<and>
   measureUsec (snd (sendEvents force s)) = measureUsec s \<and>
   eventsUsec (snd (sendEvents force s)) = eventsUsec s \<and>
   rainbow (snd (sendEvents force s)) = rainbow s"
  unfolding sendEvents_def by (rule sendEvents_loop_frame)

section \<open>The example states are well formed\<close>

lemma wf_device_default: "wf_device device_default"
  by (simp add: wf_device_def device_default_def config_default_def)

lemma wf_device_pressed: "wf_device device_pressed"
  by (simp add: wf_device_def device_pressed_def device_default_def config_default_def)

lemma wf_device_ranged: "wf_device device_ranged"
  by (simp add: wf_device_def device_ranged_def device_default_def config_default_def)

lemma config_ranged_0:
  "config device_ranged ! 0 =
     \<lparr>channel = 0, controller = GeneralPurpose1,
      port_range = \<lparr>range_invert = False, range_min = 1/4, range_max = 3/4\<rparr>\<rparr>"
  by (simp add: device_ranged_def device_default_def config_default_def Ports_count_def)

lemma config_default_0:
  "config device_default ! 0 = \<lparr>channel = 0, controller = GeneralPurpose1, port_range = range_default\<rparr>"
  by (simp add: device_default_def config_default_def Ports_count_def upt_conv_Cons)

section \<open>Import of the configuration\<close>

subsection \<open>What each field write stores\<close>

lemma importChannel_cases:
  "channel (importChannel ch p) = (if ch < 1 then 0 else if 16 < ch then 95 else ch - 1)"
  by (simp add: importChannel_def)

lemma importConfiguration_v22_channel:
  "importConfiguration_v22 (Some (Some ch)) c = (if ch < 1 then 0 else if 16 < ch then 15 else ch - 1)"
  by (simp add: importConfiguration_v22_def)

lemma importRangeMin_stored:
  "range_min (importRangeMin v r) = (if 0 \<le> v \<and> v \<le> 1 then v else 0)"
  by (auto simp: importRangeMin_def Let_def)

lemma importRangeMax_stored:
  "range_max (importRangeMax v r) = (if 0 \<le> v \<and> v \<le> 1 then v else 1)"
  by (auto simp: importRangeMax_def Let_def)

lemma importRangeMin_invariant:
  "v \<noteq> 1 \<Longrightarrow> range_min (importRangeMin v r) < range_max (importRangeMin v r)"
  by (auto simp: importRangeMin_def Let_def)

lemma importRangeMax_invariant:
  "v \<noteq> 0 \<Longrightarrow> range_min (importRangeMax v r) < range_max (importRangeMax v r)"
  by (auto simp: importRangeMax_def Let_def)

lemma importPort_range:
  "port_range (importPort jsonPort p) =
     (case json_range jsonPort of None \<Rightarrow> port_range p
      | Some jsonRange \<Rightarrow> importRange jsonRange (port_range p))"
  by (simp add: importPort_def importChannel_def importController_def Let_def
      split: option.splits)

lemma importRange_min_stored:
  "json_min jsonRange = Some v \<Longrightarrow> json_max jsonRange = None \<Longrightarrow>
   range_min (importRange jsonRange r) = (if 0 \<le> v \<and> v \<le> 1 then v else 0)"
  by (simp add: importRange_def importRangeMin_stored Let_def)

lemma importRange_min_out_of_range:
  assumes "json_min jsonRange = Some v" and "v < 0 \<or> 1 < v"
  shows "range_min (importRange jsonRange r) = 0"
proof -
  have z: "range_min (importRangeMin v r') = 0" for r'
    using assms(2) by (auto simp: importRangeMin_stored)
  have k: "range_min r' = 0 \<Longrightarrow> range_min (importRangeMax w r') = 0" for w r'
    by (simp add: importRangeMax_def Let_def)
  show ?thesis
    using assms(1) z k by (simp add: importRange_def Let_def split: option.splits)
qed

lemma importRange_min_bounds:
  assumes "json_min jsonRange = Some v"
  shows "0 \<le> range_min (importRange jsonRange r) \<and> range_min (importRange jsonRange r) \<le> 1"
proof -
  have z: "0 \<le> range_min (importRangeMin v r') \<and> range_min (importRangeMin v r') \<le> 1" for r'
    by (simp add: importRangeMin_stored)
  have k: "0 \<le> range_min r' \<and> range_min r' \<le> 1 \<Longrightarrow>
           0 \<le> range_min (importRangeMax w r') \<and> range_min (importRangeMax w r') \<le> 1" for w r'
    by (simp add: importRangeMax_def Let_def)
  show ?thesis
  proof (cases "json_max jsonRange")
    case None
    with assms z show ?thesis by (simp add: importRange_def Let_def)
  next
    case (Some w)
    with assms show ?thesis
      using k[OF z] by (simp add: importRange_def Let_def)
  qed
qed

lemma importRange_max_stored:
  "json_max jsonRange = Some v \<Longrightarrow>
   range_max (importRange jsonRange r) = (if 0 \<le> v \<and> v \<le> 1 then v else 1)"
  by (simp add: importRange_def importRangeMax_stored Let_def)

lemma importConfiguration_wf:
  assumes "wf_device s"
  shows "wf_device (importConfiguration json s)"
proof (cases json)
  case None
  with assms show ?thesis by (simp add: importConfiguration_def)
next
  case (Some jsonPorts)
  have "length (importPorts jsonPorts [0..<Ports_count] (config s)) = length (config s)"
    using importPorts_nth[of "[0..<Ports_count]" "config s" jsonPorts] assms
    by (simp add: wf_device_def)
  with assms Some show ?thesis by (simp add: importConfiguration_def wf_device_def)
qed

subsection \<open>The bounds of the range\<close>

text \<open>
  C1. Claim: after every import of \<^verbatim>\<open>range.min\<close> or \<^verbatim>\<open>range.max\<close> the port satisfies
  \<open>min < max\<close>, the other bound being reset to its default where the write would break it.
  The write of the lower bound restores the order by setting the upper bound to 1
  (\<open>importRangeMin_invariant\<close>: the order holds for every input but 1), and that repair does
  nothing for the input 1 itself: importing \<open>min = 1\<close> into the default configuration
  leaves port 0 with \<open>min = 1\<close> and \<open>max = 1\<close>, so \<open>min < max\<close> is false after the write.
  (\<^verbatim>\<open>measurePort\<close> divides by \<open>max - min\<close>.)
\<close>

theorem importConfiguration_min_1:
  "port_range (config (importConfiguration (json_set_min 1) device_default) ! 0) =
     \<lparr>range_invert = False, range_min = 1, range_max = 1\<rparr> \<and>
   \<not> range_min (port_range (config (importConfiguration (json_set_min 1) device_default) ! 0))
       < range_max (port_range (config (importConfiguration (json_set_min 1) device_default) ! 0))"
proof -
  have "config (importConfiguration (json_set_min 1) device_default) ! 0 =
        importPort (jsonPorts_at [json_port_null\<lparr>json_range := Some (json_range_null\<lparr>json_min := Some 1\<rparr>)\<rparr>] 0) (config device_default ! 0)"
    unfolding json_set_min_def
    by (rule importConfiguration_port) (use wf_device_default in \<open>simp_all add: wf_device_def Ports_count_def\<close>)
  then show ?thesis
    by (simp add: jsonPorts_at_def json_port_null_def json_range_null_def importPort_def
        importRange_def importRangeMin_def config_default_0 range_default_def)
qed

text \<open>
  C9. Claim: an out-of-range input of \<^verbatim>\<open>range.min\<close> or \<^verbatim>\<open>range.max\<close> is clamped to the nearest
  bound of \<open>[0,1]\<close> (1.5 stores 1.0, -0.5 stores 0.0) and never rejected. The code does not
  reject it and stores a bound in \<open>[0,1]\<close>, but it replaces an out-of-range input by the
  default of the field: 0 for the lower bound, 1 for the upper bound, whichever side the
  input is out of range on. This holds for every import, whatever else the document
  writes and whatever the range was before.
\<close>

theorem importConfiguration_range_default:
  assumes "wf_device s" and "i < Ports_count" and "i < length jsonPorts"
    and "json_range (jsonPorts ! i) = Some jsonRange"
  shows "(json_min jsonRange = Some v \<longrightarrow>
            0 \<le> range_min (port_range (config (importConfiguration (Some jsonPorts) s) ! i)) \<and>
            range_min (port_range (config (importConfiguration (Some jsonPorts) s) ! i)) \<le> 1) \<and>
         (json_min jsonRange = Some v \<and> (v < 0 \<or> 1 < v) \<longrightarrow>
            range_min (port_range (config (importConfiguration (Some jsonPorts) s) ! i)) = 0) \<and>
         (json_max jsonRange = Some v \<longrightarrow>
            0 \<le> range_max (port_range (config (importConfiguration (Some jsonPorts) s) ! i)) \<and>
            range_max (port_range (config (importConfiguration (Some jsonPorts) s) ! i)) \<le> 1) \<and>
         (json_max jsonRange = Some v \<and> (v < 0 \<or> 1 < v) \<longrightarrow>
            range_max (port_range (config (importConfiguration (Some jsonPorts) s) ! i)) = 1)"
proof -
  have "config (importConfiguration (Some jsonPorts) s) ! i =
        importPort (jsonPorts ! i) (config s ! i)"
    using importConfiguration_port[of s i jsonPorts] assms(1-3)
    by (simp add: wf_device_def jsonPorts_at_def)
  then have "port_range (config (importConfiguration (Some jsonPorts) s) ! i) =
        importRange jsonRange (port_range (config s ! i))"
    using assms(4) by (simp add: importPort_range)
  then show ?thesis
    using importRange_min_bounds[of jsonRange v "port_range (config s ! i)"]
    by (simp add: importRange_min_out_of_range importRange_max_stored)
qed

theorem importConfiguration_range_default_witness:
  "wf_device device_ranged \<and> (0::nat) < Ports_count \<and>
   range_min (port_range (config (importConfiguration (json_set_min 1.5) device_ranged) ! 0)) = 0 \<and>
   range_min (port_range (config (importConfiguration (json_set_min_max 1.5 0.5) device_ranged) ! 0)) = 0 \<and>
   range_max (port_range (config (importConfiguration (json_set_max (- 0.5)) device_ranged) ! 0)) = 1 \<and>
   range_max (port_range (config (importConfiguration (json_set_min_max 0.5 1.5) device_ranged) ! 0)) = 1 \<and>
   range_min (port_range (config (importConfiguration (json_set_min 0.5) device_ranged) ! 0)) \<le> 1"
proof -
  have a: "wf_device device_ranged" by (rule wf_device_ranged)
  have b: "(0::nat) < Ports_count" by (simp add: Ports_count_def)
  have c: "0 < length [json_port_null\<lparr>json_range := Some jr\<rparr>]" for jr
    by simp
  have d: "json_range ([json_port_null\<lparr>json_range := Some jr\<rparr>] ! 0) = Some jr" for jr
    by simp
  have 1: "range_min (port_range (config (importConfiguration (json_set_min 1.5) device_ranged) ! 0)) = 0"
    using importConfiguration_range_default[OF a b c d, of "json_range_null\<lparr>json_min := Some 1.5\<rparr>" "1.5"]
    by (simp add: json_set_min_def json_range_null_def)
  have 2: "range_min (port_range (config (importConfiguration (json_set_min_max 1.5 0.5) device_ranged) ! 0)) = 0"
    using importConfiguration_range_default[OF a b c d,
        of "json_range_null\<lparr>json_min := Some 1.5, json_max := Some 0.5\<rparr>" "1.5"]
    by (simp add: json_set_min_max_def json_range_null_def)
  have 3: "range_max (port_range (config (importConfiguration (json_set_max (- 0.5)) device_ranged) ! 0)) = 1"
    using importConfiguration_range_default[OF a b c d, of "json_range_null\<lparr>json_max := Some (- 0.5)\<rparr>" "- 0.5"]
    by (simp add: json_set_max_def json_range_null_def)
  have 4: "range_max (port_range (config (importConfiguration (json_set_min_max 0.5 1.5) device_ranged) ! 0)) = 1"
    using importConfiguration_range_default[OF a b c d,
        of "json_range_null\<lparr>json_min := Some 0.5, json_max := Some 1.5\<rparr>" "1.5"]
    by (simp add: json_set_min_max_def json_range_null_def)
  have 5: "range_min (port_range (config (importConfiguration (json_set_min 0.5) device_ranged) ! 0)) \<le> 1"
    using importConfiguration_range_default[OF a b c d, of "json_range_null\<lparr>json_min := Some 0.5\<rparr>" "0.5"]
    by (simp add: json_set_min_def json_range_null_def)
  show ?thesis using a b 1 2 3 4 5 by simp
qed

text \<open>
  On port 0 of \<open>device_ranged\<close>, whose range is \<open>[1/4, 3/4]\<close>, the lower bound 1.5 is stored
  as 0, not as 1, and the upper bound -0.5 is stored as 1, not as 0.
\<close>

theorem importConfiguration_min_out_of_range:
  "range_min (port_range (config device_ranged ! 0)) = 1/4 \<and>
   range_max (port_range (config device_ranged ! 0)) = 3/4 \<and>
   range_min (port_range (config (importConfiguration (json_set_min 1.5) device_ranged) ! 0)) = 0 \<and>
   range_min (port_range (config (importConfiguration (json_set_min 1.5) device_ranged) ! 0)) \<noteq> 1 \<and>
   range_max (port_range (config (importConfiguration (json_set_max (- 0.5)) device_ranged) ! 0)) = 1 \<and>
   range_max (port_range (config (importConfiguration (json_set_max (- 0.5)) device_ranged) ! 0)) \<noteq> 0"
proof -
  have p: "config (importConfiguration (Some [jp]) device_ranged) ! 0 =
        importPort (jsonPorts_at [jp] 0) (config device_ranged ! 0)" for jp
    by (rule importConfiguration_port) (use wf_device_ranged in \<open>simp_all add: wf_device_def Ports_count_def\<close>)
  have 1: "port_range (config (importConfiguration (json_set_min 1.5) device_ranged) ! 0) =
        \<lparr>range_invert = False, range_min = 0, range_max = 3/4\<rparr>"
    unfolding json_set_min_def p
    by (simp add: jsonPorts_at_def json_port_null_def json_range_null_def importPort_def
        importRange_def importRangeMin_def config_ranged_0)
  have 2: "port_range (config (importConfiguration (json_set_max (- 0.5)) device_ranged) ! 0) =
        \<lparr>range_invert = False, range_min = 1/4, range_max = 1\<rparr>"
    unfolding json_set_max_def p
    by (simp add: jsonPorts_at_def json_port_null_def json_range_null_def importPort_def
        importRange_def importRangeMax_def config_ranged_0)
  show ?thesis using 1 2 by (simp add: config_ranged_0)
qed

subsection \<open>The channel\<close>

text \<open>
  C2. Claim: an input below 1 stores channel 0, an input in \<open>[1,16]\<close> stores the input
  minus 1, and an input above 16 stores channel 15 (not 95). The first two hold
  (\<open>importChannel_cases\<close>); for an input above 16 this revision stores 95, where the older
  revision stores 15 (\<open>importConfiguration_v22_channel\<close>): importing channel 17 into the
  default configuration leaves port 0 on channel 95.
\<close>

theorem importConfiguration_channel_17:
  "channel (config (importConfiguration (json_set_channel 17) device_default) ! 0) = 95"
proof -
  have "config (importConfiguration (json_set_channel 17) device_default) ! 0 =
        importPort (jsonPorts_at [json_port_null\<lparr>json_channel := Some 17\<rparr>] 0) (config device_default ! 0)"
    unfolding json_set_channel_def
    by (rule importConfiguration_port) (use wf_device_default in \<open>simp_all add: wf_device_def Ports_count_def\<close>)
  then show ?thesis
    by (simp add: jsonPorts_at_def json_port_null_def importPort_def importChannel_def config_default_0)
qed

section \<open>Emission\<close>

subsection \<open>What a pass sends\<close>

lemma usb_sent_append: "usb_sent (es @ fs) = usb_sent es @ usb_sent fs"
  by (induction es rule: usb_sent.induct) simp_all

lemma Plug_sent_append: "Plug_sent (es @ fs) = Plug_sent es @ Plug_sent fs"
  by (induction es rule: Plug_sent.induct) simp_all

lemma usb_sent_concat: "usb_sent (concat (map f xs)) = concat (map (\<lambda>x. usb_sent (f x)) xs)"
  by (induction xs) (simp_all add: usb_sent_append)

lemma Plug_sent_concat: "Plug_sent (concat (map f xs)) = concat (map (\<lambda>x. Plug_sent (f x)) xs)"
  by (induction xs) (simp_all add: Plug_sent_append)

lemma transmissions_concat:
  "transmissions (concat (map f xs)) = concat (map (\<lambda>x. transmissions (f x)) xs)"
  by (induction xs) (simp_all add: transmissions_def)

lemma concat_map_if_filter:
  "concat (map (\<lambda>x. if P x then [] else f x) xs) = concat (map f (filter (\<lambda>x. \<not> P x) xs))"
  by (induction xs) simp_all

lemma concat_map_singleton: "concat (map (\<lambda>x. [f x]) xs) = map f xs"
  by (induction xs) simp_all

lemma usb_sent_sendEvents:
  "usb_sent (fst (sendEvents force s)) =
     map (port_message s) (filter (\<lambda>i. force \<or> steps s ! i \<noteq> step (potis s ! i)) [0..<Ports_count])"
proof -
  have "usb_sent (fst (sendEvents force s)) =
      concat (map (\<lambda>i. if \<not> force \<and> steps s ! i = step (potis s ! i) then [] else [port_message s i])
        [0..<Ports_count])"
    unfolding sendEvents_effects usb_sent_concat
    by (rule arg_cong[where f = concat], rule map_cong[OF refl]) simp
  also have "\<dots> = concat (map (\<lambda>i. [port_message s i])
      (filter (\<lambda>i. \<not> (\<not> force \<and> steps s ! i = step (potis s ! i))) [0..<Ports_count]))"
    by (rule concat_map_if_filter)
  also have "\<dots> = map (port_message s)
      (filter (\<lambda>i. \<not> (\<not> force \<and> steps s ! i = step (potis s ! i))) [0..<Ports_count])"
    by (rule concat_map_singleton)
  finally show ?thesis by simp
qed

lemma Plug_sent_sendEvents:
  "Plug_sent (fst (sendEvents force s)) =
     map (port_message s) (filter (\<lambda>i. force \<or> steps s ! i \<noteq> step (potis s ! i)) [0..<Ports_count])"
proof -
  have "Plug_sent (fst (sendEvents force s)) =
      concat (map (\<lambda>i. if \<not> force \<and> steps s ! i = step (potis s ! i) then [] else [port_message s i])
        [0..<Ports_count])"
    unfolding sendEvents_effects Plug_sent_concat
    by (rule arg_cong[where f = concat], rule map_cong[OF refl]) simp
  also have "\<dots> = concat (map (\<lambda>i. [port_message s i])
      (filter (\<lambda>i. \<not> (\<not> force \<and> steps s ! i = step (potis s ! i))) [0..<Ports_count]))"
    by (rule concat_map_if_filter)
  also have "\<dots> = map (port_message s)
      (filter (\<lambda>i. \<not> (\<not> force \<and> steps s ! i = step (potis s ! i))) [0..<Ports_count])"
    by (rule concat_map_singleton)
  finally show ?thesis by simp
qed

lemma transmissions_sendEvents:
  "transmissions (fst (sendEvents force s)) =
     concat (map (\<lambda>i. [usb_midi_send (port_message s i), Plug_send (port_message s i)])
       (filter (\<lambda>i. force \<or> steps s ! i \<noteq> step (potis s ! i)) [0..<Ports_count]))"
proof -
  have "transmissions (fst (sendEvents force s)) =
      concat (map (\<lambda>i. if \<not> force \<and> steps s ! i = step (potis s ! i) then []
                        else [usb_midi_send (port_message s i), Plug_send (port_message s i)])
        [0..<Ports_count])"
    unfolding sendEvents_effects transmissions_concat
    by (rule arg_cong[where f = concat], rule map_cong[OF refl]) (simp add: transmissions_def)
  also have "\<dots> = concat (map (\<lambda>i. [usb_midi_send (port_message s i), Plug_send (port_message s i)])
      (filter (\<lambda>i. \<not> (\<not> force \<and> steps s ! i = step (potis s ! i))) [0..<Ports_count]))"
    by (rule concat_map_if_filter)
  finally show ?thesis by simp
qed

lemma sendEvents_cached:
  assumes "wf_device s" and "steps s = map step (potis s)"
  shows "sendEvents False s = ([], s)"
proof -
  have eq: "\<And>i. i < Ports_count \<Longrightarrow> steps s ! i = step (potis s ! i)"
    using assms by (simp add: wf_device_def)
  have loop: "set js \<subseteq> {..<Ports_count} \<Longrightarrow> sendEvents_loop False js s = ([], s)" for js
  proof (induction js)
    case Nil
    show ?case by simp
  next
    case (Cons i js)
    then have "sendEvents_port False i s = ([], s)"
      by (simp add: sendEvents_port_def eq)
    with Cons show ?case by simp
  qed
  show ?thesis unfolding sendEvents_def by (rule loop) auto
qed

lemma sendEvents_wf: "wf_device s \<Longrightarrow> wf_device (snd (sendEvents force s))"
  using sendEvents_frame[of force s] sendEvents_steps[of s force]
  by (simp add: wf_device_def)

lemma handleReset_state:
  "steps (snd (handleReset potiReset now s)) = replicate Ports_count 0"
  "config (snd (handleReset potiReset now s)) = config s"
  "potis (snd (handleReset potiReset now s)) = map potiReset (potis s)"
  "midi (snd (handleReset potiReset now s)) = packet_empty"
  by (simp_all add: handleReset_def)

subsection \<open>Reset\<close>

text \<open>
  C3. Claim: a reset clears the cache of emitted steps to a sentinel distinct from any
  step, so the first emission after it sends one Control Change per port. The code clears
  the cache to 0, which is a step of the filter. What holds: after the reset the cache is 0
  for every port, and the first unforced pass sends one Control Change, in the order of the
  ports, for exactly the ports whose filter is at a step other than 0; a port at step 0
  sends nothing. Stated for the filters \<open>ps\<close> as the samples after the reset leave them, and
  for a pass right after the reset.
\<close>

theorem handleReset_then_sendEvents:
  assumes "wf_device s" and "length ps = Ports_count"
  shows "steps (snd (handleReset potiReset now s)) = replicate Ports_count 0 \<and>
         usb_sent (fst (sendEvents False ((snd (handleReset potiReset now s))\<lparr>potis := ps\<rparr>))) =
           map (\<lambda>i. \<lparr>port = 0, message = ControlChange (channel (config s ! i))
                       (controller (config s ! i)) (step (ps ! i))\<rparr>)
             (filter (\<lambda>i. step (ps ! i) \<noteq> 0) [0..<Ports_count]) \<and>
         usb_sent (fst (sendEvents False (snd (handleReset potiReset now s)))) =
           map (\<lambda>i. \<lparr>port = 0, message = ControlChange (channel (config s ! i))
                       (controller (config s ! i)) (step (potiReset (potis s ! i)))\<rparr>)
             (filter (\<lambda>i. step (potiReset (potis s ! i)) \<noteq> 0) [0..<Ports_count])"
proof -
  let ?t = "snd (handleReset potiReset now s)"
  have f: "filter (\<lambda>i. False \<or> steps (?t\<lparr>potis := qs\<rparr>) ! i \<noteq> step (potis (?t\<lparr>potis := qs\<rparr>) ! i)) [0..<Ports_count]
        = filter (\<lambda>i. step (qs ! i) \<noteq> 0) [0..<Ports_count]" for qs
    by (rule filter_cong[OF refl]) (auto simp: handleReset_state)
  have g: "usb_sent (fst (sendEvents False (?t\<lparr>potis := qs\<rparr>))) =
           map (\<lambda>i. \<lparr>port = 0, message = ControlChange (channel (config s ! i))
                       (controller (config s ! i)) (step (qs ! i))\<rparr>)
             (filter (\<lambda>i. step (qs ! i) \<noteq> 0) [0..<Ports_count])" for qs
    unfolding usb_sent_sendEvents f
    by (simp add: handleReset_state packet_empty_def)
  have t: "?t\<lparr>potis := map potiReset (potis s)\<rparr> = ?t"
    by (simp add: handleReset_def)
  have len: "length (potis s) = Ports_count" using assms(1) by (simp add: wf_device_def)
  have h: "usb_sent (fst (sendEvents False ?t)) =
           map (\<lambda>i. \<lparr>port = 0, message = ControlChange (channel (config s ! i))
                       (controller (config s ! i)) (step (map potiReset (potis s) ! i))\<rparr>)
             (filter (\<lambda>i. step (map potiReset (potis s) ! i) \<noteq> 0) [0..<Ports_count])"
    using g[of "map potiReset (potis s)"] unfolding t .
  have h': "usb_sent (fst (sendEvents False ?t)) =
           map (\<lambda>i. \<lparr>port = 0, message = ControlChange (channel (config s ! i))
                       (controller (config s ! i)) (step (potiReset (potis s ! i)))\<rparr>)
             (filter (\<lambda>i. step (potiReset (potis s ! i)) \<noteq> 0) [0..<Ports_count])"
    unfolding h
    by (rule trans[OF map_cong[OF filter_cong[OF refl] refl]]) (auto simp: len)
  show ?thesis using g[of ps] h' by (simp add: handleReset_state)
qed

theorem handleReset_then_sendEvents_witness:
  "wf_device device_pressed \<and> length (potis device_pressed) = Ports_count \<and>
   length (usb_sent (fst (sendEvents False
     ((snd (handleReset potiReset_zero 0 device_pressed))\<lparr>potis := potis device_pressed\<rparr>)))) = 15"
proof -
  have len: "length (potis device_pressed) = Ports_count"
    using wf_device_pressed by (simp add: wf_device_def)
  have "length (filter (\<lambda>i. step (potis device_pressed ! i) \<noteq> 0) [0..<Ports_count]) = 15"
    by (simp add: device_pressed_def Ports_count_def upt_conv_Cons)
  then show ?thesis
    using handleReset_then_sendEvents[OF wf_device_pressed len, of potiReset_zero 0]
      wf_device_pressed len
    by simp
qed

text \<open>With every filter at step 0 after the reset, the first pass sends nothing.\<close>

theorem handleReset_then_sendEvents_counterexample:
  "usb_sent (fst (sendEvents False (snd (handleReset potiReset_zero 0 device_default)))) = [] \<and>
   length (usb_sent (fst (sendEvents False (snd (handleReset potiReset_zero 0 device_default)))))
     \<noteq> 16"
proof -
  let ?t = "snd (handleReset potiReset_zero 0 device_default)"
  have "filter (\<lambda>i. False \<or> steps ?t ! i \<noteq> step (potis ?t ! i)) [0..<Ports_count] = []"
    by (simp add: handleReset_state device_default_def potiReset_zero_def)
  then have "usb_sent (fst (sendEvents False ?t)) = []"
    unfolding usb_sent_sendEvents by simp
  then show ?thesis by simp
qed

subsection \<open>Forced passes\<close>

text \<open>
  C7. A Control Change \<^verbatim>\<open>AllNotesOff\<close> or \<^verbatim>\<open>AllSoundOff\<close> runs a forced pass: for every
  port in order, the LED update and one Control Change with the port's channel, its
  controller and the current step of its filter, 16 messages whatever the cache holds; the
  filters and the configuration are unchanged.
\<close>

theorem handleControlChange_forced_resend:
  assumes "wf_device s" and "ctl = AllNotesOff \<or> ctl = AllSoundOff"
  shows "fst (handleControlChange ch ctl v s) = concat (map (port_events s) [0..<Ports_count]) \<and>
         usb_sent (fst (handleControlChange ch ctl v s)) = map (port_message s) [0..<Ports_count] \<and>
         length (usb_sent (fst (handleControlChange ch ctl v s))) = 16 \<and>
         potis (snd (handleControlChange ch ctl v s)) = potis s \<and>
         config (snd (handleControlChange ch ctl v s)) = config s"
proof -
  from assms(2) have h: "handleControlChange ch ctl v s = sendEvents True s"
    by (auto simp: handleControlChange_def allNotesOff_def Rainbow_def Controller90_def
        AllNotesOff_def AllSoundOff_def)
  have 1: "fst (sendEvents True s) = concat (map (port_events s) [0..<Ports_count])"
    by (simp add: sendEvents_effects)
  have 2: "usb_sent (fst (sendEvents True s)) = map (port_message s) [0..<Ports_count]"
    by (simp add: usb_sent_sendEvents)
  have 3: "length (usb_sent (fst (sendEvents True s))) = 16"
    unfolding 2 by (simp add: Ports_count_def)
  show ?thesis
    unfolding h using 1 2 3 sendEvents_frame[of True s] by simp
qed

theorem handleControlChange_forced_resend_witness:
  "wf_device device_pressed \<and>
   length (usb_sent (fst (handleControlChange 0 AllNotesOff 0 device_pressed))) = 16 \<and>
   potis (snd (handleControlChange 0 AllSoundOff 0 device_pressed)) = potis device_pressed"
proof -
  have 1: "length (usb_sent (fst (handleControlChange 0 AllNotesOff 0 device_pressed))) = 16"
    using handleControlChange_forced_resend[OF wf_device_pressed disjI1[OF refl], of 0 0]
    by blast
  have 2: "potis (snd (handleControlChange 0 AllSoundOff 0 device_pressed)) = potis device_pressed"
    using handleControlChange_forced_resend[OF wf_device_pressed disjI2[OF refl], of 0 0]
    by blast
  show ?thesis using 1 2 wf_device_pressed by simp
qed

subsection \<open>Unforced passes\<close>

text \<open>
  C8. An unforced pass does nothing (no LED update, no Control Change) for a port whose
  step equals the cached one. After any pass the cache equals the steps of the filters, so a
  further unforced pass sends nothing and leaves the state as it is, as long as the steps
  of the filters are the same (also when the samples in between changed their fractions):
  one Control Change per change of a step, not one per tick.
\<close>

theorem sendEvents_idempotent:
  assumes "wf_device s"
  shows "fst (sendEvents False s) =
           concat (map (\<lambda>i. if steps s ! i = step (potis s ! i) then [] else port_events s i)
             [0..<Ports_count]) \<and>
         (steps s = map step (potis s) \<longrightarrow> sendEvents False s = ([], s)) \<and>
         steps (snd (sendEvents force s)) = map step (potis s) \<and>
         potis (snd (sendEvents force s)) = potis s \<and>
         sendEvents False (snd (sendEvents force s)) = ([], snd (sendEvents force s)) \<and>
         (\<forall>ps. length ps = Ports_count \<and> map step ps = map step (potis s) \<longrightarrow>
            sendEvents False ((snd (sendEvents force s))\<lparr>potis := ps\<rparr>) =
              ([], (snd (sendEvents force s))\<lparr>potis := ps\<rparr>))"
proof -
  let ?s' = "snd (sendEvents force s)"
  have 1: "fst (sendEvents False s) =
           concat (map (\<lambda>i. if steps s ! i = step (potis s ! i) then [] else port_events s i)
             [0..<Ports_count])"
    by (simp add: sendEvents_effects)
  have 2: "steps s = map step (potis s) \<longrightarrow> sendEvents False s = ([], s)"
    using assms by (simp add: sendEvents_cached)
  have 3: "steps ?s' = map step (potis s)"
    using assms by (rule sendEvents_steps)
  have 4: "potis ?s' = potis s"
    using sendEvents_frame[of force s] by simp
  have wf': "wf_device ?s'" using assms by (rule sendEvents_wf)
  have 5: "sendEvents False ?s' = ([], ?s')"
    using wf' 3 4 by (simp add: sendEvents_cached)
  have 6: "sendEvents False (?s'\<lparr>potis := ps\<rparr>) = ([], ?s'\<lparr>potis := ps\<rparr>)"
    if "length ps = Ports_count \<and> map step ps = map step (potis s)" for ps
  proof (rule sendEvents_cached)
    show "wf_device (?s'\<lparr>potis := ps\<rparr>)"
      using wf' that by (simp add: wf_device_def)
    show "steps (?s'\<lparr>potis := ps\<rparr>) = map step (potis (?s'\<lparr>potis := ps\<rparr>))"
      using 3 that by simp
  qed
  show ?thesis using 1 2 3 4 5 6 by blast
qed

theorem sendEvents_idempotent_witness:
  "wf_device device_pressed \<and>
   sendEvents False (snd (sendEvents False device_pressed)) = ([], snd (sendEvents False device_pressed))"
  using sendEvents_idempotent[OF wf_device_pressed, of False] wf_device_pressed
  by simp

subsection \<open>The transports of an emitted message\<close>

text \<open>
  C10. \<^verbatim>\<open>handleSend\<close> hands every packet to USB and then to the Plug link, without a
  condition; the transmissions of a pass, forced or not, are those two sends for every
  port it does not skip, so the Plug link carries the packets USB carries.
\<close>

theorem handleSend_both_transports:
  assumes "wf_device s"
  shows "handleSend m = ([usb_midi_send m, Plug_send m], True) \<and>
         transmissions (fst (sendEvents force s)) =
           concat (map (\<lambda>i. fst (handleSend (port_message s i)))
             (filter (\<lambda>i. force \<or> steps s ! i \<noteq> step (potis s ! i)) [0..<Ports_count])) \<and>
         Plug_sent (fst (sendEvents force s)) = usb_sent (fst (sendEvents force s))"
  by (simp add: handleSend_def transmissions_sendEvents usb_sent_sendEvents Plug_sent_sendEvents)

theorem handleSend_both_transports_witness:
  "wf_device device_pressed \<and>
   handleSend packet_empty = ([usb_midi_send packet_empty, Plug_send packet_empty], True) \<and>
   Plug_sent (fst (sendEvents True device_pressed)) = usb_sent (fst (sendEvents True device_pressed))"
  using handleSend_both_transports[OF wf_device_pressed, of packet_empty True] wf_device_pressed
  by simp

section \<open>Routing\<close>

text \<open>
  C5. A packet from the USB host with port 0 is dispatched to the device and sent on no
  link; a packet with port \<open>N > 0\<close> is not dispatched: it is sent once, on the Socket link,
  with port \<open>N - 1\<close>.
\<close>

theorem MIDI_loop_routing:
  "(port m = 0 \<longrightarrow>
      fst (MIDI_loop (Some m) m0) = [Device_dispatch USB m] \<and>
      transmissions (fst (MIDI_loop (Some m) m0)) = []) \<and>
   (port m \<noteq> 0 \<longrightarrow>
      fst (MIDI_loop (Some m) m0) = [Socket_send (m\<lparr>port := port m - 1\<rparr>)] \<and>
      unat (port m - 1) + 1 = unat (port m))"
proof (intro conjI impI)
  assume "port m = 0"
  then show "fst (MIDI_loop (Some m) m0) = [Device_dispatch USB m]"
    by (simp add: MIDI_loop_def)
  then show "transmissions (fst (MIDI_loop (Some m) m0)) = []"
    by (simp add: transmissions_def)
next
  assume n: "port m \<noteq> 0"
  then show "fst (MIDI_loop (Some m) m0) = [Socket_send (m\<lparr>port := port m - 1\<rparr>)]"
    by (simp add: MIDI_loop_def Let_def)
  from n have "unat (port m) \<noteq> 0" by (simp add: unat_eq_zero)
  with n show "unat (port m - 1) + 1 = unat (port m)"
    by (simp add: unat_minus_one)
qed

theorem MIDI_loop_routing_witness:
  "fst (MIDI_loop (Some \<lparr>port = 0, message = OtherMessage [144, 60, 100]\<rparr>) packet_empty) =
     [Device_dispatch USB \<lparr>port = 0, message = OtherMessage [144, 60, 100]\<rparr>] \<and>
   fst (MIDI_loop (Some \<lparr>port = 3, message = OtherMessage [144, 60, 100]\<rparr>) packet_empty) =
     [Socket_send \<lparr>port = 2, message = OtherMessage [144, 60, 100]\<rparr>]"
  using MIDI_loop_routing[of "\<lparr>port = 0, message = OtherMessage [144, 60, 100]\<rparr>" packet_empty]
    MIDI_loop_routing[of "\<lparr>port = 3, message = OtherMessage [144, 60, 100]\<rparr>" packet_empty]
  by simp

text \<open>
  C6. A MIDI packet from the Socket link with address \<open>0x0f\<close> is dropped; with an
  address \<open>A < 0x0f\<close> it is sent to the USB host with port \<open>A + 1\<close> if the host is connected,
  and dropped (nothing sent, nothing kept) if it is not.
\<close>

theorem receiveSocket_routing:
  assumes "link_type lp = MIDI"
  shows "(address lp = 0x0f \<longrightarrow> receiveSocket usb_connected lp m0 = ([], m0)) \<and>
         (address lp < 0x0f \<longrightarrow>
            fst (receiveSocket usb_connected lp m0) =
              (if usb_connected then [usb_midi_send \<lparr>port = address lp + 1, message = payload lp\<rparr>]
               else []) \<and>
            unat (address lp + 1) = unat (address lp) + 1 \<and>
            (\<not> usb_connected \<longrightarrow> receiveSocket usb_connected lp m0 = ([], m0)))"
proof (intro conjI impI)
  assume "address lp = 0x0f"
  with assms show "receiveSocket usb_connected lp m0 = ([], m0)"
    by (simp add: receiveSocket_def)
next
  assume a: "address lp < 0x0f"
  have r: "(receive lp m0)\<lparr>port := address lp + 1\<rparr> = \<lparr>port = address lp + 1, message = payload lp\<rparr>"
    by (cases m0) (simp add: receive_def)
  from a have ne: "address lp \<noteq> 0x0f" by auto
  with assms show "fst (receiveSocket usb_connected lp m0) =
      (if usb_connected then [usb_midi_send \<lparr>port = address lp + 1, message = payload lp\<rparr>] else [])"
    by (simp add: receiveSocket_def Let_def r)
  from a have "unat (address lp) < 15" by (simp add: word_less_nat_alt)
  then show "unat (address lp + 1) = unat (address lp) + 1"
    by (simp add: unat_word_ariths)
  assume "\<not> usb_connected"
  with assms ne show "receiveSocket usb_connected lp m0 = ([], m0)"
    by (simp add: receiveSocket_def)
qed

theorem receiveSocket_routing_witness:
  "fst (receiveSocket True \<lparr>link_type = MIDI, address = 2, payload = OtherMessage [144, 60, 100]\<rparr> packet_empty) =
     [usb_midi_send \<lparr>port = 3, message = OtherMessage [144, 60, 100]\<rparr>] \<and>
   receiveSocket False \<lparr>link_type = MIDI, address = 2, payload = OtherMessage [144, 60, 100]\<rparr> packet_empty =
     ([], packet_empty) \<and>
   receiveSocket True \<lparr>link_type = MIDI, address = 0x0f, payload = OtherMessage [144, 60, 100]\<rparr> packet_empty =
     ([], packet_empty)"
  using receiveSocket_routing[of "\<lparr>link_type = MIDI, address = 2, payload = OtherMessage [144, 60, 100]\<rparr>" True packet_empty]
    receiveSocket_routing[of "\<lparr>link_type = MIDI, address = 2, payload = OtherMessage [144, 60, 100]\<rparr>" False packet_empty]
    receiveSocket_routing[of "\<lparr>link_type = MIDI, address = 0x0f, payload = OtherMessage [144, 60, 100]\<rparr>" True packet_empty]
  by simp

end
